theory Spec2Isabelle
  imports Main "HOL-Library.Sublist"
begin

section \<open>The host platform's request and response objects\<close>

text \<open>
  The router reads two properties of the incoming request, \<^verbatim>\<open>req.method\<close> and
  \<^verbatim>\<open>req.url\<close>; both have type \<^verbatim>\<open>string | undefined\<close>, which is \<open>None\<close> here.
  Of the response it assigns \<^verbatim>\<open>res.statusCode\<close> and calls \<^verbatim>\<open>res.end(data)\<close>.
  The field \<open>body\<close> collects the data handed to \<^verbatim>\<open>end\<close>, \<open>writableEnded\<close> records
  that \<^verbatim>\<open>end\<close> has been called; a response fresh from the listener is
  \<open>new_ServerResponse\<close>.
\<close>

record IncomingMessage =
  "method" :: "string option"
  url :: "string option"

record ServerResponse =
  statusCode :: nat
  body :: string
  writableEnded :: bool

definition new_ServerResponse :: ServerResponse where
  "new_ServerResponse = \<lparr>statusCode = 200, body = [], writableEnded = False\<rparr>"

definition res_end :: "string \<Rightarrow> ServerResponse \<Rightarrow> ServerResponse" where
  "res_end data res = res\<lparr>body := body res @ data, writableEnded := True\<rparr>"

text \<open>The two members of the enum \<^verbatim>\<open>HttpStatusCode\<close> that the router uses.\<close>

definition NOT_FOUND :: nat where
  "NOT_FOUND = 404"

definition METHOD_NOT_ALLOWED :: nat where
  "METHOD_NOT_ALLOWED = 405"

text \<open>
  \<^verbatim>\<open>JSON.stringify({ error: msg })\<close> for a message that needs no escaping (both
  messages of the router are plain ASCII words): the key, a colon and the quoted message,
  with no white space.
\<close>

definition JSON_stringify_error :: "string \<Rightarrow> string" where
  "JSON_stringify_error msg = ''{\"error\":\"'' @ msg @ ''\"}''"

section \<open>String operations of the language\<close>

text \<open>
  \<^verbatim>\<open>s.replace(searchValue, replaceValue)\<close> with a string pattern replaces the first
  occurrence of the pattern, wherever it is, and nothing else; the empty pattern occurs at
  position 0. The replacement is inserted as it is (the router passes the empty string, so
  no \<^verbatim>\<open>$\<close> pattern is involved).
\<close>

fun replace :: "string \<Rightarrow> string \<Rightarrow> string \<Rightarrow> string" where
  "replace [] searchValue replaceValue = (if searchValue = [] then replaceValue else [])"
| "replace (c # cs) searchValue replaceValue =
     (if prefix searchValue (c # cs) then replaceValue @ drop (length searchValue) (c # cs)
      else c # replace cs searchValue replaceValue)"

definition startsWith :: "string \<Rightarrow> string \<Rightarrow> bool" where
  "startsWith s searchString = prefix searchString s"

text \<open>
  \<^verbatim>\<open>s.split(sep)\<close> for a separator of one character: the pieces between the
  separators, empty pieces included, so that the empty string gives one empty piece.
\<close>

fun split :: "string \<Rightarrow> char \<Rightarrow> string list" where
  "split [] sep = [[]]"
| "split (c # cs) sep =
     (if c = sep then [] # split cs sep
      else (case split cs sep of [] \<Rightarrow> [[c]] | piece # pieces \<Rightarrow> (c # piece) # pieces))"

text \<open>
  \<^verbatim>\<open>v || '/'\<close> for \<^verbatim>\<open>v\<close> of type \<^verbatim>\<open>string | undefined\<close>: the absent value and the empty
  string are the falsy ones.
\<close>

definition or_slash :: "string option \<Rightarrow> string" where
  "or_slash v = (case v of None \<Rightarrow> ''/'' | Some s \<Rightarrow> (if s = [] then ''/'' else s))"

section \<open>The route table: class SuppressController\<close>

text \<open>
  A handler is a function of the request and the response. It either returns, having
  changed the response, or throws synchronously: \<open>Inl e\<close> is the thrown error, \<open>Inr res'\<close>
  the response it leaves behind. What a handler returns is ignored by the router, and work
  that a handler defers to the event loop is outside this model.
\<close>

type_synonym 'e ServerRouteHandlerType = "IncomingMessage \<Rightarrow> ServerResponse \<Rightarrow> 'e + ServerResponse"

record 'e ServerRoutesMap =
  GET :: "string \<rightharpoonup> 'e ServerRouteHandlerType"
  POST :: "string \<rightharpoonup> 'e ServerRouteHandlerType"
  PUT :: "string \<rightharpoonup> 'e ServerRouteHandlerType"
  DELETE :: "string \<rightharpoonup> 'e ServerRouteHandlerType"

record 'e SuppressController =
  routes :: "'e ServerRoutesMap"

definition new_SuppressController :: "'e SuppressController" where
  "new_SuppressController =
     \<lparr>routes = \<lparr>GET = Map.empty, POST = Map.empty, PUT = Map.empty, DELETE = Map.empty\<rparr>\<rparr>"

text \<open>
  The four registration methods assign \<^verbatim>\<open>this.routes.M[path] = handler\<close>. They are
  defined on the record scheme, so that the subclass \<open>Suppress\<close> inherits them. A table is
  the map of the own keys of the object, and its prototype is the built-in one: every
  looked-up path starts with a slash (\<open>effective_path_startsWith\<close> below), so that no lookup
  sees a member inherited from the built-in object prototype. The map does not follow a
  registration under the key \<^verbatim>\<open>__proto__\<close>, where the language replaces the prototype of
  the table by the handler object instead of storing a key, and later lookups also see the
  own properties of that object.
\<close>

definition get :: "string \<Rightarrow> 'e ServerRouteHandlerType \<Rightarrow>
    ('e, 'z) SuppressController_scheme \<Rightarrow> ('e, 'z) SuppressController_scheme" where
  "get path handler this = this\<lparr>routes := (routes this)\<lparr>GET := (GET (routes this))(path \<mapsto> handler)\<rparr>\<rparr>"

definition post :: "string \<Rightarrow> 'e ServerRouteHandlerType \<Rightarrow>
    ('e, 'z) SuppressController_scheme \<Rightarrow> ('e, 'z) SuppressController_scheme" where
  "post path handler this = this\<lparr>routes := (routes this)\<lparr>POST := (POST (routes this))(path \<mapsto> handler)\<rparr>\<rparr>"

definition put :: "string \<Rightarrow> 'e ServerRouteHandlerType \<Rightarrow>
    ('e, 'z) SuppressController_scheme \<Rightarrow> ('e, 'z) SuppressController_scheme" where
  "put path handler this = this\<lparr>routes := (routes this)\<lparr>PUT := (PUT (routes this))(path \<mapsto> handler)\<rparr>\<rparr>"

definition delete :: "string \<Rightarrow> 'e ServerRouteHandlerType \<Rightarrow>
    ('e, 'z) SuppressController_scheme \<Rightarrow> ('e, 'z) SuppressController_scheme" where
  "delete path handler this = this\<lparr>routes := (routes this)\<lparr>DELETE := (DELETE (routes this))(path \<mapsto> handler)\<rparr>\<rparr>"

text \<open>
  \<^verbatim>\<open>this.routes[method]\<close>: the object \<^verbatim>\<open>routes\<close> has the four own keys and no
  other. For any other method string, and for an absent method, the read gives either
  \<^verbatim>\<open>undefined\<close> or a member inherited from the built-in object prototype; the
  optional chaining \<^verbatim>\<open>?.[path]\<close> that follows then gives \<^verbatim>\<open>undefined\<close> in both
  cases, since no built-in object has a property whose name starts with a slash, as every
  looked-up path does (\<open>effective_path_startsWith\<close> below). Both are \<open>None\<close> here.
\<close>

definition routes_index :: "'e ServerRoutesMap \<Rightarrow> string option \<Rightarrow> (string \<rightharpoonup> 'e ServerRouteHandlerType) option" where
  "routes_index r m =
     (if m = Some ''GET'' then Some (GET r)
      else if m = Some ''POST'' then Some (POST r)
      else if m = Some ''PUT'' then Some (PUT r)
      else if m = Some ''DELETE'' then Some (DELETE r)
      else None)"

text \<open>
  The local variable \<^verbatim>\<open>path\<close> of \<^verbatim>\<open>handleRequest\<close>:
  \<^verbatim>\<open>req.url?.replace(basePath, '') || '/'\<close>, where the optional chaining maps over an
  absent url, and then the slash put in front when the path does not start with one.
\<close>

definition effective_path :: "string option \<Rightarrow> string \<Rightarrow> string" where
  "effective_path u basePath =
     (let path = or_slash (map_option (\<lambda>s. replace s basePath []) u)
      in if \<not> startsWith path ''/'' then ''/'' @ path else path)"

definition not_found :: "ServerResponse \<Rightarrow> ServerResponse" where
  "not_found res = res_end (JSON_stringify_error ''Route not found'') (res\<lparr>statusCode := NOT_FOUND\<rparr>)"

definition handleRequest :: "('e, 'z) SuppressController_scheme \<Rightarrow> IncomingMessage \<Rightarrow>
    ServerResponse \<Rightarrow> string \<Rightarrow> 'e + ServerResponse" where
  "handleRequest this req res basePath =
     (let path = effective_path (url req) basePath;
          routeHandler = (case routes_index (routes this) (method req) of
                            None \<Rightarrow> None
                          | Some table \<Rightarrow> table path)
      in case routeHandler of
           Some handler \<Rightarrow> handler req res
         | None \<Rightarrow> Inr (not_found res))"

section \<open>The dispatcher: class Suppress\<close>

text \<open>
  \<open>Suppress\<close> extends \<open>SuppressController\<close> by the registry of controllers. The listener
  itself (\<^verbatim>\<open>server\<close>, \<^verbatim>\<open>listen\<close>) belongs to the platform; its callback is
  \<open>handleRootRequest\<close>. A registered controller is used through \<open>handleRequest\<close> only, which
  reads nothing but its routes.
\<close>

record 'e Suppress = "'e SuppressController" +
  controllers :: "string \<rightharpoonup> 'e SuppressController"

definition new_Suppress :: "'e Suppress" where
  "new_Suppress = SuppressController.extend new_SuppressController (Suppress.fields Map.empty)"

definition addController :: "string \<Rightarrow> 'e SuppressController \<Rightarrow> 'e Suppress \<Rightarrow> 'e Suppress" where
  "addController basePath controller this = this\<lparr>controllers := (controllers this)(basePath \<mapsto> controller)\<rparr>"

text \<open>The local variables \<^verbatim>\<open>segments\<close> and \<^verbatim>\<open>basePath\<close> of \<^verbatim>\<open>handleRootRequest\<close>.\<close>

definition segments :: "string \<Rightarrow> string list" where
  "segments path = filter (\<lambda>s. s \<noteq> []) (split path CHR ''/'')"

definition basePath_of :: "string \<Rightarrow> string" where
  "basePath_of path = (case segments path of [] \<Rightarrow> ''/'' | s # _ \<Rightarrow> ''/'' @ s)"

definition method_not_allowed :: "ServerResponse \<Rightarrow> ServerResponse" where
  "method_not_allowed res =
     res_end (JSON_stringify_error ''Method not allowed'') (res\<lparr>statusCode := METHOD_NOT_ALLOWED\<rparr>)"

definition handleRootRequest :: "'e Suppress \<Rightarrow> IncomingMessage \<Rightarrow> ServerResponse \<Rightarrow> 'e + ServerResponse" where
  "handleRootRequest this req res =
     (let path = or_slash (url req)
      in if method req \<notin> set [Some ''GET'', Some ''POST'', Some ''PUT'', Some ''DELETE'']
         then Inr (method_not_allowed res)
         else (let basePath = basePath_of path
               in case controllers this basePath of
                    Some controller \<Rightarrow> handleRequest controller req res basePath
                  | None \<Rightarrow> handleRequest this req res ''/''))"

section \<open>The specification's wording of the two path computations\<close>

text \<open>
  The effective path as the specification words it: the leading \<open>basePathToStrip\<close> removed
  from the request's full path, the path left as it is when \<open>basePathToStrip\<close> is not a
  leading prefix, and a slash put in front when the result does not start with one.
\<close>

definition spec_leading_slash :: "string \<Rightarrow> string" where
  "spec_leading_slash path = (if prefix ''/'' path then path else ''/'' @ path)"

definition spec_effective_path :: "string \<Rightarrow> string \<Rightarrow> string" where
  "spec_effective_path path basePathToStrip =
     spec_leading_slash
       (if prefix basePathToStrip path then drop (length basePathToStrip) path else path)"

text \<open>
  The base path as the specification words it: a slash and the first non-empty segment
  between slashes, or the slash alone when the path has no such segment.
\<close>

definition spec_basePath :: "string \<Rightarrow> string" where
  "spec_basePath path =
     (let rest = dropWhile (\<lambda>c. c = CHR ''/'') path
      in if rest = [] then ''/'' else ''/'' @ takeWhile (\<lambda>c. c \<noteq> CHR ''/'') rest)"

section \<open>The example of the class documentation\<close>

text \<open>
  The application built in the documentation of class \<open>Suppress\<close>: a root route and a
  controller for the user routes, registered under \<^verbatim>\<open>/users\<close>. Its handlers write a text
  and end the response. \<open>failing\<close> is a handler that throws.
\<close>

definition hello_world :: "string ServerRouteHandlerType" where
  "hello_world req res = Inr (res_end ''Hello World!'' res)"

definition user_profile :: "string ServerRouteHandlerType" where
  "user_profile req res = Inr (res_end ''User Profile'' res)"

definition failing :: "string ServerRouteHandlerType" where
  "failing req res = Inl ''handler failed''"

definition userController :: "string SuppressController" where
  "userController = get ''/profile'' user_profile new_SuppressController"

definition example_app :: "string Suppress" where
  "example_app = addController ''/users'' userController (get ''/'' hello_world new_Suppress)"

section \<open>Facts about the string operations\<close>

lemma replace_prefix:
  "prefix searchValue s \<Longrightarrow> replace s searchValue rep = rep @ drop (length searchValue) s"
  by (cases s) auto

lemma replace_first_occurrence:
  assumes "\<forall>ps ss. xs @ pat @ ys = ps @ pat @ ss \<longrightarrow> length xs \<le> length ps"
  shows "replace (xs @ pat @ ys) pat rep = xs @ rep @ ys"
  using assms
proof (induction xs)
  case Nil
  then show ?case by (simp add: replace_prefix)
next
  case (Cons x xs)
  have no_match: "\<not> prefix pat (x # xs @ pat @ ys)"
  proof
    assume "prefix pat (x # xs @ pat @ ys)"
    then obtain ss where "x # xs @ pat @ ys = pat @ ss"
      by (auto simp: prefix_def)
    then have "(x # xs) @ pat @ ys = [] @ pat @ ss" by simp
    with Cons.prems have "length (x # xs) \<le> length ([] :: string)" by blast
    then show False by simp
  qed
  have "\<forall>ps ss. xs @ pat @ ys = ps @ pat @ ss \<longrightarrow> length xs \<le> length ps"
  proof (intro allI impI)
    fix ps ss
    assume "xs @ pat @ ys = ps @ pat @ ss"
    then have "(x # xs) @ pat @ ys = (x # ps) @ pat @ ss" by simp
    with Cons.prems have "length (x # xs) \<le> length (x # ps)" by blast
    then show "length xs \<le> length ps" by simp
  qed
  with Cons.IH have "replace (xs @ pat @ ys) pat rep = xs @ rep @ ys" by blast
  with no_match show ?case by simp
qed

lemma replace_only_at_end:
  assumes "\<not> sublist pat (butlast (xs @ pat))"
  shows "replace (xs @ pat @ ys) pat rep = xs @ rep @ ys"
proof (rule replace_first_occurrence, intro allI impI)
  fix ps ss
  assume eq: "xs @ pat @ ys = ps @ pat @ ss"
  show "length xs \<le> length ps"
  proof (rule ccontr)
    assume "\<not> length xs \<le> length ps"
    then have shorter: "length ps + length pat \<le> length xs + length pat - 1"
      by simp
    have "butlast (xs @ pat) = take (length xs + length pat - 1) (xs @ pat @ ys)"
      by (simp add: butlast_conv_take)
    then have "take (length ps + length pat) (butlast (xs @ pat))
        = take (length ps + length pat) (xs @ pat @ ys)"
      using shorter by (simp add: min_def)
    also have "\<dots> = ps @ pat"
      by (simp add: eq)
    finally have "butlast (xs @ pat)
        = ps @ pat @ drop (length ps + length pat) (butlast (xs @ pat))"
      using append_take_drop_id [of "length ps + length pat" "butlast (xs @ pat)"] by simp
    then have "sublist pat (butlast (xs @ pat))"
      unfolding sublist_def by blast
    with assms show False by contradiction
  qed
qed

lemma replace_absent: "\<not> sublist pat s \<Longrightarrow> replace s pat rep = s"
  by (induction s) (auto simp: sublist_Cons_right)

lemma replace_self: "replace s s rep = rep"
  by (simp add: replace_prefix)

lemma effective_path_startsWith: "startsWith (effective_path u basePath) ''/''"
  by (auto simp: effective_path_def or_slash_def startsWith_def Let_def split: option.splits)

lemma effective_path_Some:
  "effective_path (Some s) basePath = spec_leading_slash (replace s basePath [])"
  by (auto simp: effective_path_def or_slash_def startsWith_def spec_leading_slash_def Let_def)

lemma effective_path_None: "effective_path None basePath = ''/''"
  by (simp add: effective_path_def or_slash_def startsWith_def)

lemma split_not_Nil: "split s sep \<noteq> []"
  by (induction s) (auto split: list.splits)

lemma split_Cons_other:
  "c \<noteq> sep \<Longrightarrow> split (c # cs) sep = (c # hd (split cs sep)) # tl (split cs sep)"
  using split_not_Nil [of cs sep] by (cases "split cs sep") auto

lemma segments_Nil: "segments [] = []"
  by (simp add: segments_def)

lemma segments_slash: "segments (CHR ''/'' # cs) = segments cs"
  by (simp add: segments_def)

lemma hd_split: "hd (split s sep) = takeWhile (\<lambda>c. c \<noteq> sep) s"
proof (induction s)
  case Nil
  show ?case by simp
next
  case (Cons c cs)
  show ?case
  proof (cases "c = sep")
    case True
    then show ?thesis by simp
  next
    case False
    with Cons show ?thesis
      by (simp add: split_Cons_other del: split.simps)
  qed
qed

lemma segments_other:
  "c \<noteq> CHR ''/'' \<Longrightarrow> \<exists>rest. segments (c # cs) = (c # takeWhile (\<lambda>c. c \<noteq> CHR ''/'') cs) # rest"
  by (simp add: segments_def split_Cons_other hd_split del: split.simps)

lemma basePath_of_Nil: "basePath_of [] = ''/''"
  by (simp add: basePath_of_def segments_Nil)

lemma basePath_of_slash: "basePath_of (CHR ''/'' # cs) = basePath_of cs"
  by (simp add: basePath_of_def segments_slash)

lemma basePath_of_other:
  "c \<noteq> CHR ''/'' \<Longrightarrow> basePath_of (c # cs) = CHR ''/'' # c # takeWhile (\<lambda>c. c \<noteq> CHR ''/'') cs"
  using segments_other [of c cs] by (auto simp: basePath_of_def)

section \<open>Facts about registration and lookup\<close>

lemma routes_index_known:
  "m \<in> set [Some ''GET'', Some ''POST'', Some ''PUT'', Some ''DELETE''] \<longleftrightarrow> (\<exists>table. routes_index r m = Some table)"
  by (auto simp: routes_index_def)

lemma routes_get [simp]:
  "routes (get path handler this) = (routes this)\<lparr>GET := (GET (routes this))(path \<mapsto> handler)\<rparr>"
  by (simp add: get_def)

lemma routes_post [simp]:
  "routes (post path handler this) = (routes this)\<lparr>POST := (POST (routes this))(path \<mapsto> handler)\<rparr>"
  by (simp add: post_def)

lemma routes_put [simp]:
  "routes (put path handler this) = (routes this)\<lparr>PUT := (PUT (routes this))(path \<mapsto> handler)\<rparr>"
  by (simp add: put_def)

lemma routes_delete [simp]:
  "routes (delete path handler this) = (routes this)\<lparr>DELETE := (DELETE (routes this))(path \<mapsto> handler)\<rparr>"
  by (simp add: delete_def)

lemma handleRequest_found:
  "routes_index (routes this) (method req) = Some table \<Longrightarrow>
   table (effective_path (url req) basePath) = Some handler \<Longrightarrow>
   handleRequest this req res basePath = handler req res"
  by (simp add: handleRequest_def)

lemma handleRequest_missing:
  "routes_index (routes this) (method req) = Some table \<Longrightarrow>
   table (effective_path (url req) basePath) = None \<Longrightarrow>
   handleRequest this req res basePath = Inr (not_found res)"
  by (simp add: handleRequest_def)

lemma handleRequest_unknown_method:
  "routes_index (routes this) (method req) = None \<Longrightarrow>
   handleRequest this req res basePath = Inr (not_found res)"
  by (simp add: handleRequest_def)

lemma JSON_stringify_error_literals:
  "JSON_stringify_error ''Route not found'' = ''{\"error\":\"Route not found\"}''"
  "JSON_stringify_error ''Method not allowed'' = ''{\"error\":\"Method not allowed\"}''"
  by (simp_all add: JSON_stringify_error_def)

lemma not_found_fields:
  "not_found res = res\<lparr>statusCode := 404, body := body res @ JSON_stringify_error ''Route not found'',
     writableEnded := True\<rparr>"
  by (simp add: not_found_def res_end_def NOT_FOUND_def)

lemma method_not_allowed_fields:
  "method_not_allowed res = res\<lparr>statusCode := 405,
     body := body res @ JSON_stringify_error ''Method not allowed'', writableEnded := True\<rparr>"
  by (simp add: method_not_allowed_def res_end_def METHOD_NOT_ALLOWED_def)

lemma basePath_of_spec: "basePath_of path = spec_basePath path"
proof (induction path)
  case Nil
  show ?case by (simp add: basePath_of_Nil spec_basePath_def)
next
  case (Cons c cs)
  show ?case
  proof (cases "c = CHR ''/''")
    case True
    with Cons show ?thesis by (simp add: basePath_of_slash spec_basePath_def)
  next
    case False
    then show ?thesis by (simp add: basePath_of_other spec_basePath_def)
  qed
qed

lemma basePath_of_single:
  assumes "seg \<noteq> []" and "CHR ''/'' \<notin> set seg"
  shows "basePath_of (''/'' @ seg) = ''/'' @ seg"
proof -
  from assms obtain c cs where seg: "seg = c # cs" and c: "c \<noteq> CHR ''/''"
    by (cases seg) auto
  from assms seg have "takeWhile (\<lambda>c. c \<noteq> CHR ''/'') cs = cs"
    by (auto intro: takeWhile_eq_all_conv [THEN iffD2])
  with seg c show ?thesis
    by (simp add: basePath_of_slash basePath_of_other)
qed

lemma handleRootRequest_known:
  "method req \<in> set [Some ''GET'', Some ''POST'', Some ''PUT'', Some ''DELETE''] \<Longrightarrow>
   handleRootRequest this req res =
     (case controllers this (basePath_of (or_slash (url req))) of
        Some controller \<Rightarrow> handleRequest controller req res (basePath_of (or_slash (url req)))
      | None \<Rightarrow> handleRequest this req res ''/'')"
  by (simp add: handleRootRequest_def Let_def)

lemma handleRootRequest_unknown:
  "method req \<notin> set [Some ''GET'', Some ''POST'', Some ''PUT'', Some ''DELETE''] \<Longrightarrow>
   handleRootRequest this req res = Inr (method_not_allowed res)"
  by (simp add: handleRootRequest_def Let_def)

section \<open>The claims\<close>

text \<open>
  C1. Whatever the state of a route table, a request whose method and effective path are
  those of a registered handler is answered by calling that handler on the request and the
  untouched response: the result of the dispatch is the handler's result and nothing else,
  so no other handler runs and the router writes no 404. The registered handler is the one
  stored last for the pair: right after \<open>get\<close>, \<open>post\<close>, \<open>put\<close> or \<open>delete\<close> of a path, a
  request of that method and effective path gets the handler just given, whatever was in
  the table before.
\<close>

theorem registered_handler_invoked:
  assumes "effective_path (url req) basePath = path"
  shows "(routes_index (routes this) (method req) = Some table \<and> table path = Some handler \<longrightarrow>
            handleRequest this req res basePath = handler req res)
       \<and> (method req = Some ''GET'' \<longrightarrow>
            handleRequest (get path handler this) req res basePath = handler req res)
       \<and> (method req = Some ''POST'' \<longrightarrow>
            handleRequest (post path handler this) req res basePath = handler req res)
       \<and> (method req = Some ''PUT'' \<longrightarrow>
            handleRequest (put path handler this) req res basePath = handler req res)
       \<and> (method req = Some ''DELETE'' \<longrightarrow>
            handleRequest (delete path handler this) req res basePath = handler req res)"
  using assms by (simp add: handleRequest_def routes_index_def)

theorem registered_handler_invoked_witness:
  "effective_path (url \<lparr>method = Some ''PUT'', url = Some ''/users''\<rparr>) ''/'' = ''/users''
   \<and> routes_index (routes (put ''/users'' user_profile (put ''/users'' failing new_SuppressController)))
        (method \<lparr>method = Some ''PUT'', url = Some ''/users''\<rparr>)
      = Some [''/users'' \<mapsto> user_profile]
   \<and> handleRequest (put ''/users'' user_profile (put ''/users'' failing new_SuppressController))
        \<lparr>method = Some ''PUT'', url = Some ''/users''\<rparr> new_ServerResponse ''/''
      = Inr \<lparr>statusCode = 200, body = ''User Profile'', writableEnded = True\<rparr>"
proof -
  let ?req = "\<lparr>method = Some ''PUT'', url = Some ''/users''\<rparr>"
  have path: "effective_path (url ?req) ''/'' = ''/users''"
    by (simp add: effective_path_def or_slash_def startsWith_def)
  have table: "routes_index (routes (put ''/users'' user_profile (put ''/users'' failing new_SuppressController)))
      (method ?req) = Some [''/users'' \<mapsto> user_profile]"
    by (simp add: routes_index_def new_SuppressController_def)
  from registered_handler_invoked
    [where this = "put ''/users'' failing new_SuppressController"
       and table = "[''/users'' \<mapsto> user_profile]" and handler = user_profile
       and res = new_ServerResponse, OF path]
  have "handleRequest (put ''/users'' user_profile (put ''/users'' failing new_SuppressController))
      ?req new_ServerResponse ''/'' = user_profile ?req new_ServerResponse"
    by simp
  with path table show ?thesis
    by (simp add: user_profile_def res_end_def new_ServerResponse_def)
qed

text \<open>
  C2. A request whose method is not one of GET, POST, PUT and DELETE (an absent method
  included) gets from the dispatcher status 405 and the body
  \<^verbatim>\<open>{"error":"Method not allowed"}\<close>, and the response is ended; this holds for every url
  and for every content of the root routes and of the controller registry, none of which is
  read. A route table's own \<open>handleRequest\<close> has no such check: for the same request it
  answers 404 with the body \<^verbatim>\<open>{"error":"Route not found"}\<close>, whatever its routes and the
  base path.
\<close>

theorem unknown_method_405:
  assumes "method req \<notin> set [Some ''GET'', Some ''POST'', Some ''PUT'', Some ''DELETE'']"
  shows "handleRootRequest this req res =
           Inr (res\<lparr>statusCode := 405,
                    body := body res @ ''{\"error\":\"Method not allowed\"}'',
                    writableEnded := True\<rparr>)
       \<and> handleRequest controller req res basePath =
           Inr (res\<lparr>statusCode := 404,
                    body := body res @ ''{\"error\":\"Route not found\"}'',
                    writableEnded := True\<rparr>)"
proof -
  from assms have "routes_index (routes controller) (method req) = None"
    by (auto simp: routes_index_def)
  then have "handleRequest controller req res basePath = Inr (not_found res)"
    by (rule handleRequest_unknown_method)
  moreover from assms have "handleRootRequest this req res = Inr (method_not_allowed res)"
    by (rule handleRootRequest_unknown)
  ultimately show ?thesis
    by (simp add: not_found_fields method_not_allowed_fields JSON_stringify_error_literals)
qed

theorem unknown_method_405_witness:
  "method \<lparr>method = Some ''PATCH'', url = Some ''/''\<rparr>
     \<notin> set [Some ''GET'', Some ''POST'', Some ''PUT'', Some ''DELETE'']
   \<and> handleRootRequest example_app \<lparr>method = Some ''PATCH'', url = Some ''/''\<rparr> new_ServerResponse
      = Inr \<lparr>statusCode = 405, body = ''{\"error\":\"Method not allowed\"}'',
             writableEnded = True\<rparr>
   \<and> handleRequest example_app \<lparr>method = Some ''PATCH'', url = Some ''/''\<rparr> new_ServerResponse ''/''
      = Inr \<lparr>statusCode = 404, body = ''{\"error\":\"Route not found\"}'',
             writableEnded = True\<rparr>"
proof -
  let ?req = "\<lparr>method = Some ''PATCH'', url = Some ''/''\<rparr>"
  have unknown: "method ?req \<notin> set [Some ''GET'', Some ''POST'', Some ''PUT'', Some ''DELETE'']"
    by simp
  from unknown_method_405 [OF unknown, of example_app new_ServerResponse example_app "''/''"] unknown
  show ?thesis
    by (simp add: new_ServerResponse_def)
qed

text \<open>
  C4, as stated: for every url and every \<open>basePathToStrip\<close> the effective path is the
  url without its leading \<open>basePathToStrip\<close>, and the url itself when \<open>basePathToStrip\<close>
  is not a leading prefix, with a slash put in front when needed. This fails: the code
  removes the first occurrence of the base path wherever it is. For the url
  \<^verbatim>\<open>/a/user\<close> and the base path \<^verbatim>\<open>/user\<close>, which is not a leading prefix, the
  looked-up path is \<^verbatim>\<open>/a\<close> and not \<^verbatim>\<open>/a/user\<close>, so that a handler registered
  for \<^verbatim>\<open>/a\<close> answers the request.
\<close>

theorem effective_path_not_leading_counterexample:
  "\<not> prefix ''/user'' ''/a/user''
   \<and> spec_effective_path ''/a/user'' ''/user'' = ''/a/user''
   \<and> effective_path (Some ''/a/user'') ''/user'' = ''/a''
   \<and> effective_path (Some ''/a/user'') ''/user'' \<noteq> spec_effective_path ''/a/user'' ''/user''
   \<and> handleRequest (get ''/a'' user_profile new_SuppressController)
        \<lparr>method = Some ''GET'', url = Some ''/a/user''\<rparr> new_ServerResponse ''/user''
      = Inr \<lparr>statusCode = 200, body = ''User Profile'', writableEnded = True\<rparr>"
  by (simp add: spec_effective_path_def spec_leading_slash_def effective_path_def or_slash_def
      startsWith_def handleRequest_def routes_index_def new_SuppressController_def
      user_profile_def res_end_def new_ServerResponse_def)

text \<open>
  C4, amended: for every url and every \<open>basePathToStrip\<close> the effective path is the url
  with the first occurrence of \<open>basePathToStrip\<close> removed, a slash put in front when the
  result does not start with one (the empty result becomes the slash), and the slash alone
  when the url is absent. Hence it is what the specification says when \<open>basePathToStrip\<close>
  is a leading prefix of the url and when it does not occur in the url at all; when the url
  is \<open>xs @ basePathToStrip @ ys\<close> and \<open>basePathToStrip\<close> occurs in \<open>xs @ basePathToStrip\<close>
  at the end only, the effective path is \<open>xs @ ys\<close> with the slash in front when needed.
  In particular a handler registered for \<^verbatim>\<open>/profile\<close> in a controller under
  \<^verbatim>\<open>/user\<close> answers the request to \<^verbatim>\<open>/user/profile\<close>; a request to
  \<^verbatim>\<open>/profile\<close> does not reach it and gets 404, when no controller is registered under
  \<^verbatim>\<open>/profile\<close> and the root table has no such route.
\<close>

theorem effective_path_first_occurrence:
  "effective_path None basePath = ''/''
   \<and> effective_path (Some s) basePath = spec_leading_slash (replace s basePath [])
   \<and> (prefix basePath s \<longrightarrow> effective_path (Some s) basePath = spec_effective_path s basePath)
   \<and> (\<not> sublist basePath s \<longrightarrow> effective_path (Some s) basePath = spec_effective_path s basePath)
   \<and> (\<not> sublist basePath (butlast (xs @ basePath)) \<longrightarrow>
        effective_path (Some (xs @ basePath @ ys)) basePath = spec_leading_slash (xs @ ys))
   \<and> (method req \<in> set [Some ''GET'', Some ''POST'', Some ''PUT'', Some ''DELETE'']
        \<and> url req = Some ''/user/profile''
        \<and> controllers server ''/user'' = Some controller
        \<and> routes_index (routes controller) (method req) = Some table
        \<and> table ''/profile'' = Some handler \<longrightarrow>
      handleRootRequest server req res = handler req res)
   \<and> (method req \<in> set [Some ''GET'', Some ''POST'', Some ''PUT'', Some ''DELETE'']
        \<and> url req = Some ''/profile''
        \<and> controllers server ''/profile'' = None
        \<and> routes_index (routes server) (method req) = Some root_table
        \<and> root_table ''/profile'' = None \<longrightarrow>
      handleRootRequest server req res = Inr (not_found res))"
proof -
  have leading: "effective_path (Some s) basePath = spec_effective_path s basePath"
    if "prefix basePath s"
    using that by (simp add: effective_path_Some spec_effective_path_def replace_prefix)
  have absent: "effective_path (Some s) basePath = spec_effective_path s basePath"
    if "\<not> sublist basePath s"
  proof -
    from that have "\<not> prefix basePath s" by auto
    with that show ?thesis
      by (simp add: effective_path_Some spec_effective_path_def replace_absent)
  qed
  have first: "effective_path (Some (xs @ basePath @ ys)) basePath = spec_leading_slash (xs @ ys)"
    if "\<not> sublist basePath (butlast (xs @ basePath))"
    using that by (simp add: effective_path_Some replace_only_at_end)
  have base: "basePath_of ''/user/profile'' = ''/user''" and root: "basePath_of ''/profile'' = ''/profile''"
    by (simp_all add: basePath_of_def segments_def)
  have sub_path: "effective_path (Some ''/user/profile'') ''/user'' = ''/profile''"
    and root_path: "effective_path (Some ''/profile'') ''/'' = ''/profile''"
    by (simp_all add: effective_path_def or_slash_def startsWith_def)
  have sub: "handleRootRequest server req res = handler req res"
    if "method req \<in> set [Some ''GET'', Some ''POST'', Some ''PUT'', Some ''DELETE'']"
      and "url req = Some ''/user/profile''" and "controllers server ''/user'' = Some controller"
      and "routes_index (routes controller) (method req) = Some table"
      and "table ''/profile'' = Some handler"
    using that base sub_path
    by (simp add: handleRootRequest_known or_slash_def handleRequest_found)
  have top: "handleRootRequest server req res = Inr (not_found res)"
    if "method req \<in> set [Some ''GET'', Some ''POST'', Some ''PUT'', Some ''DELETE'']"
      and "url req = Some ''/profile''" and "controllers server ''/profile'' = None"
      and "routes_index (routes server) (method req) = Some root_table"
      and "root_table ''/profile'' = None"
    using that root root_path
    by (simp add: handleRootRequest_known or_slash_def handleRequest_missing)
  from leading absent first sub top show ?thesis
    by (simp only: effective_path_None effective_path_Some simp_thms) blast
qed

theorem effective_path_first_occurrence_witness:
  "prefix ''/user'' ''/user/profile''
   \<and> effective_path (Some ''/user/profile'') ''/user'' = ''/profile''
   \<and> \<not> sublist ''/user'' ''/profile''
   \<and> effective_path (Some ''/profile'') ''/user'' = ''/profile''
   \<and> \<not> sublist ''/user'' (butlast (''/a'' @ ''/user''))
   \<and> effective_path (Some (''/a'' @ ''/user'' @ [])) ''/user'' = ''/a''
   \<and> controllers (addController ''/user'' userController new_Suppress) ''/user'' = Some userController
   \<and> handleRootRequest (addController ''/user'' userController new_Suppress)
        \<lparr>method = Some ''GET'', url = Some ''/user/profile''\<rparr> new_ServerResponse
      = Inr \<lparr>statusCode = 200, body = ''User Profile'', writableEnded = True\<rparr>
   \<and> controllers (addController ''/user'' userController new_Suppress) ''/profile'' = None
   \<and> handleRootRequest (addController ''/user'' userController new_Suppress)
        \<lparr>method = Some ''GET'', url = Some ''/profile''\<rparr> new_ServerResponse
      = Inr \<lparr>statusCode = 404, body = JSON_stringify_error ''Route not found'', writableEnded = True\<rparr>"
proof -
  let ?server = "addController ''/user'' userController new_Suppress :: string Suppress"
  let ?sub = "\<lparr>method = Some ''GET'', url = Some ''/user/profile''\<rparr>"
  let ?top = "\<lparr>method = Some ''GET'', url = Some ''/profile''\<rparr>"
  have leading: "prefix ''/user'' ''/user/profile''"
    and absent: "\<not> sublist ''/user'' ''/profile''"
    and first: "\<not> sublist ''/user'' (butlast (''/a'' @ ''/user''))"
    by (simp_all add: sublist_Cons_right)
  have registry: "controllers ?server ''/user'' = Some userController"
    "controllers ?server ''/profile'' = None"
    by (simp_all add: addController_def new_Suppress_def SuppressController.extend_def
        Suppress.fields_def)
  have tables: "routes_index (routes userController) (method ?sub) = Some [''/profile'' \<mapsto> user_profile]"
    "routes_index (routes ?server) (method ?top) = Some Map.empty"
    by (simp_all add: routes_index_def userController_def addController_def new_Suppress_def
        new_SuppressController_def SuppressController.extend_def Suppress.fields_def)
  note leading_case =
    effective_path_first_occurrence [THEN conjunct2, THEN conjunct2, THEN conjunct1, rule_format]
  note absent_case =
    effective_path_first_occurrence
      [THEN conjunct2, THEN conjunct2, THEN conjunct2, THEN conjunct1, rule_format]
  note first_case =
    effective_path_first_occurrence
      [THEN conjunct2, THEN conjunct2, THEN conjunct2, THEN conjunct2, THEN conjunct1, rule_format]
  note sub_case =
    effective_path_first_occurrence
      [THEN conjunct2, THEN conjunct2, THEN conjunct2, THEN conjunct2, THEN conjunct2,
       THEN conjunct1, rule_format]
  note top_case =
    effective_path_first_occurrence
      [THEN conjunct2, THEN conjunct2, THEN conjunct2, THEN conjunct2, THEN conjunct2,
       THEN conjunct2, rule_format]
  from leading_case [OF leading]
  have 1: "effective_path (Some ''/user/profile'') ''/user'' = ''/profile''"
    by (simp add: spec_effective_path_def spec_leading_slash_def)
  from absent_case [OF absent]
  have 2: "effective_path (Some ''/profile'') ''/user'' = ''/profile''"
    by (simp add: spec_effective_path_def spec_leading_slash_def)
  from first_case [OF first, of "[]"]
  have 3: "effective_path (Some (''/a'' @ ''/user'' @ [])) ''/user'' = ''/a''"
    by (simp add: spec_leading_slash_def)
  from sub_case [of ?sub ?server userController "[''/profile'' \<mapsto> user_profile]" user_profile
      new_ServerResponse] registry tables
  have 4: "handleRootRequest ?server ?sub new_ServerResponse = user_profile ?sub new_ServerResponse"
    by simp
  from top_case [of ?top ?server Map.empty new_ServerResponse] registry tables
  have 5: "handleRootRequest ?server ?top new_ServerResponse = Inr (not_found new_ServerResponse)"
    by simp
  from leading absent first registry 1 2 3 4 5 show ?thesis
    by (simp add: user_profile_def res_end_def not_found_fields new_ServerResponse_def)
qed

text \<open>
  C5. For a request with one of the four methods the dispatcher takes the url, or the slash
  when the url is absent or empty, and computes the base path from its pieces between
  slashes: the slash followed by the first non-empty piece, or the slash alone when there
  is no such piece. The base path computed with \<^verbatim>\<open>split\<close> and \<^verbatim>\<open>filter\<close> is the one the
  specification describes. When a controller is registered under exactly this base path,
  the result is that of the controller's \<open>handleRequest\<close> with this base path; otherwise it
  is that of the dispatcher's own \<open>handleRequest\<close> with the base path \<^verbatim>\<open>/\<close>.
\<close>

theorem dispatcher_forwards_by_base_path:
  assumes "method req \<in> set [Some ''GET'', Some ''POST'', Some ''PUT'', Some ''DELETE'']"
  shows "basePath_of (or_slash (url req)) = spec_basePath (or_slash (url req))
       \<and> handleRootRequest this req res =
           (case controllers this (spec_basePath (or_slash (url req))) of
              Some controller \<Rightarrow> handleRequest controller req res (spec_basePath (or_slash (url req)))
            | None \<Rightarrow> handleRequest this req res ''/'')"
  using assms by (simp only: handleRootRequest_known basePath_of_spec simp_thms)

theorem dispatcher_forwards_by_base_path_witness:
  "method \<lparr>method = Some ''GET'', url = Some ''/users/profile''\<rparr>
     \<in> set [Some ''GET'', Some ''POST'', Some ''PUT'', Some ''DELETE'']
   \<and> spec_basePath (or_slash (url \<lparr>method = Some ''GET'', url = Some ''/users/profile''\<rparr>)) = ''/users''
   \<and> controllers example_app ''/users'' = Some userController
   \<and> handleRootRequest example_app \<lparr>method = Some ''GET'', url = Some ''/users/profile''\<rparr>
        new_ServerResponse
      = handleRequest userController \<lparr>method = Some ''GET'', url = Some ''/users/profile''\<rparr>
          new_ServerResponse ''/users''
   \<and> handleRootRequest example_app \<lparr>method = Some ''GET'', url = Some ''/users/profile''\<rparr>
        new_ServerResponse
      = Inr \<lparr>statusCode = 200, body = ''User Profile'', writableEnded = True\<rparr>"
proof -
  let ?req = "\<lparr>method = Some ''GET'', url = Some ''/users/profile''\<rparr>"
  have known: "method ?req \<in> set [Some ''GET'', Some ''POST'', Some ''PUT'', Some ''DELETE'']"
    by simp
  have base: "spec_basePath (or_slash (url ?req)) = ''/users''"
    by (simp add: spec_basePath_def or_slash_def)
  have registry: "controllers example_app ''/users'' = Some userController"
    by (simp add: example_app_def addController_def)
  from dispatcher_forwards_by_base_path [OF known, of example_app new_ServerResponse] base registry
  have forwarded: "handleRootRequest example_app ?req new_ServerResponse
      = handleRequest userController ?req new_ServerResponse ''/users''"
    by simp
  have "handleRequest userController ?req new_ServerResponse ''/users''
      = Inr \<lparr>statusCode = 200, body = ''User Profile'', writableEnded = True\<rparr>"
    by (simp add: handleRequest_def routes_index_def effective_path_def or_slash_def
        startsWith_def userController_def new_SuppressController_def user_profile_def
        res_end_def new_ServerResponse_def)
  with known base registry forwarded show ?thesis
    by simp
qed

text \<open>
  C6. Registering a handler for a method and a path that already have one leaves the table
  exactly as if the earlier handler had never been registered, so nothing that happens
  afterwards can call the earlier handler on account of this pair; a request of that method
  and effective path calls the new handler. Registering a controller under a base path that
  already has one leaves the registry as if the earlier controller had never been
  registered: the base path is associated with the new controller, and the operation
  returns nothing but the new state.
\<close>

theorem reregistration_replaces:
  "get path new_handler (get path old_handler this) = get path new_handler this
   \<and> post path new_handler (post path old_handler this) = post path new_handler this
   \<and> put path new_handler (put path old_handler this) = put path new_handler this
   \<and> delete path new_handler (delete path old_handler this) = delete path new_handler this
   \<and> addController base new_controller (addController base old_controller server)
      = addController base new_controller server
   \<and> controllers (addController base new_controller (addController base old_controller server)) base
      = Some new_controller
   \<and> (method req = Some ''GET'' \<and> effective_path (url req) basePath = path \<longrightarrow>
        handleRequest (get path new_handler (get path old_handler this)) req res basePath
        = new_handler req res)
   \<and> (method req = Some ''POST'' \<and> effective_path (url req) basePath = path \<longrightarrow>
        handleRequest (post path new_handler (post path old_handler this)) req res basePath
        = new_handler req res)
   \<and> (method req = Some ''PUT'' \<and> effective_path (url req) basePath = path \<longrightarrow>
        handleRequest (put path new_handler (put path old_handler this)) req res basePath
        = new_handler req res)
   \<and> (method req = Some ''DELETE'' \<and> effective_path (url req) basePath = path \<longrightarrow>
        handleRequest (delete path new_handler (delete path old_handler this)) req res basePath
        = new_handler req res)"
  by (simp add: get_def post_def put_def delete_def addController_def handleRequest_def
      routes_index_def)

theorem reregistration_replaces_witness:
  "method \<lparr>method = Some ''DELETE'', url = Some ''/users/profile''\<rparr> = Some ''DELETE''
   \<and> effective_path (url \<lparr>method = Some ''DELETE'', url = Some ''/users/profile''\<rparr>) ''/users''
      = ''/profile''
   \<and> handleRequest (delete ''/profile'' user_profile (delete ''/profile'' failing userController))
        \<lparr>method = Some ''DELETE'', url = Some ''/users/profile''\<rparr> new_ServerResponse ''/users''
      = Inr \<lparr>statusCode = 200, body = ''User Profile'', writableEnded = True\<rparr>"
proof -
  let ?req = "\<lparr>method = Some ''DELETE'', url = Some ''/users/profile''\<rparr>"
  have path: "effective_path (url ?req) ''/users'' = ''/profile''"
    by (simp add: effective_path_def or_slash_def startsWith_def)
  from reregistration_replaces
    [where req = ?req and basePath = "''/users''" and path = "''/profile''"
       and new_handler = user_profile and old_handler = failing and this = userController
       and res = new_ServerResponse and base = "''/users''" and new_controller = userController
       and old_controller = userController and server = example_app] path
  have "handleRequest (delete ''/profile'' user_profile (delete ''/profile'' failing userController))
      ?req new_ServerResponse ''/users'' = user_profile ?req new_ServerResponse"
    by simp
  with path show ?thesis
    by (simp add: user_profile_def res_end_def new_ServerResponse_def)
qed

text \<open>
  C7. When the handler found for a request throws, \<open>handleRequest\<close> ends with the same
  error: it is not caught and no response is written in its place. The dispatcher does not
  catch it either, whether it forwarded the request to a registered controller or to its
  own root table: an error that comes out of the \<open>handleRequest\<close> it called comes out of
  \<open>handleRootRequest\<close> unchanged. Conversely the router throws nothing of its own: an error
  out of \<open>handleRequest\<close> is the error of the handler that was found.
\<close>

theorem handler_error_propagates:
  "(routes_index (routes this) (method req) = Some table
      \<and> table (effective_path (url req) basePath) = Some handler
      \<and> handler req res = Inl e \<longrightarrow>
    handleRequest this req res basePath = Inl e)
   \<and> (method req \<in> set [Some ''GET'', Some ''POST'', Some ''PUT'', Some ''DELETE'']
      \<and> controllers server (basePath_of (or_slash (url req))) = Some controller
      \<and> handleRequest controller req res (basePath_of (or_slash (url req))) = Inl e \<longrightarrow>
    handleRootRequest server req res = Inl e)
   \<and> (method req \<in> set [Some ''GET'', Some ''POST'', Some ''PUT'', Some ''DELETE'']
      \<and> controllers server (basePath_of (or_slash (url req))) = None
      \<and> handleRequest server req res ''/'' = Inl e \<longrightarrow>
    handleRootRequest server req res = Inl e)
   \<and> (handleRequest this req res basePath = Inl e \<longrightarrow>
    (\<exists>table handler. routes_index (routes this) (method req) = Some table
      \<and> table (effective_path (url req) basePath) = Some handler
      \<and> handler req res = Inl e))"
proof -
  have thrown: "\<exists>table handler. routes_index (routes this) (method req) = Some table
      \<and> table (effective_path (url req) basePath) = Some handler \<and> handler req res = Inl e"
    if "handleRequest this req res basePath = Inl e"
    using that by (auto simp: handleRequest_def split: option.splits)
  then show ?thesis
    by (auto simp: handleRequest_found handleRootRequest_known simp del: set_simps)
qed

theorem handler_error_propagates_witness:
  "routes_index (routes (get ''/profile'' failing new_SuppressController))
     (method \<lparr>method = Some ''GET'', url = Some ''/users/profile''\<rparr>)
     = Some [''/profile'' \<mapsto> failing]
   \<and> effective_path (url \<lparr>method = Some ''GET'', url = Some ''/users/profile''\<rparr>) ''/users''
     = ''/profile''
   \<and> failing \<lparr>method = Some ''GET'', url = Some ''/users/profile''\<rparr> new_ServerResponse
     = Inl ''handler failed''
   \<and> handleRequest (get ''/profile'' failing new_SuppressController)
        \<lparr>method = Some ''GET'', url = Some ''/users/profile''\<rparr> new_ServerResponse ''/users''
     = Inl ''handler failed''
   \<and> handleRootRequest
        (addController ''/users'' (get ''/profile'' failing new_SuppressController) new_Suppress)
        \<lparr>method = Some ''GET'', url = Some ''/users/profile''\<rparr> new_ServerResponse
     = Inl ''handler failed''
   \<and> handleRootRequest (get ''/'' failing new_Suppress)
        \<lparr>method = Some ''GET'', url = Some ''/''\<rparr> new_ServerResponse
     = Inl ''handler failed''"
proof -
  let ?sub = "\<lparr>method = Some ''GET'', url = Some ''/users/profile''\<rparr>"
  let ?top = "\<lparr>method = Some ''GET'', url = Some ''/''\<rparr>"
  let ?controller = "get ''/profile'' failing new_SuppressController :: string SuppressController"
  let ?server = "addController ''/users'' ?controller new_Suppress"
  let ?root = "get ''/'' failing new_Suppress :: string Suppress"
  note in_table = handler_error_propagates [THEN conjunct1, rule_format]
  note in_controller = handler_error_propagates [THEN conjunct2, THEN conjunct1, rule_format]
  note in_root = handler_error_propagates [THEN conjunct2, THEN conjunct2, THEN conjunct1, rule_format]
  have table: "routes_index (routes ?controller) (method ?sub) = Some [''/profile'' \<mapsto> failing]"
    by (simp add: routes_index_def new_SuppressController_def)
  have path: "effective_path (url ?sub) ''/users'' = ''/profile''"
    by (simp add: effective_path_def or_slash_def startsWith_def)
  have fails: "failing ?sub new_ServerResponse = Inl ''handler failed''"
    by (simp add: failing_def)
  from in_table [of ?controller ?sub "[''/profile'' \<mapsto> failing]" "''/users''" failing
      new_ServerResponse "''handler failed''"] table path fails
  have 1: "handleRequest ?controller ?sub new_ServerResponse ''/users'' = Inl ''handler failed''"
    by simp
  have base: "basePath_of (or_slash (url ?sub)) = ''/users''"
    by (simp add: basePath_of_def segments_def or_slash_def)
  have registry: "controllers ?server ''/users'' = Some ?controller"
    by (simp add: addController_def)
  from in_controller [of ?sub ?server ?controller new_ServerResponse "''handler failed''"]
    base registry 1
  have 2: "handleRootRequest ?server ?sub new_ServerResponse = Inl ''handler failed''"
    by simp
  have root_base: "basePath_of (or_slash (url ?top)) = ''/''"
    by (simp add: basePath_of_def segments_def or_slash_def)
  have no_controller: "controllers ?root ''/'' = None"
    by (simp add: get_def new_Suppress_def SuppressController.extend_def Suppress.fields_def)
  have root_fails: "handleRequest ?root ?top new_ServerResponse ''/'' = Inl ''handler failed''"
    by (simp add: handleRequest_def routes_index_def effective_path_def or_slash_def
        startsWith_def failing_def)
  from in_root [of ?top ?root new_ServerResponse "''handler failed''"]
    root_base no_controller root_fails
  have 3: "handleRootRequest ?root ?top new_ServerResponse = Inl ''handler failed''"
    by simp
  from table path fails 1 2 3 show ?thesis
    by simp
qed

text \<open>
  C9. When the url of the request is the base path itself, and also when the url is absent
  or empty, the effective path is \<^verbatim>\<open>/\<close> (for every base path, the empty one included).
  Consequently, when a controller is registered under a base path of one segment, such as
  \<^verbatim>\<open>/x\<close>, and has a handler for \<^verbatim>\<open>/\<close> under the method of the request, the
  dispatcher answers the request to exactly this base path by calling that handler.
\<close>

theorem base_path_itself_is_root:
  "effective_path (Some basePath) basePath = ''/''
   \<and> effective_path None basePath = ''/''
   \<and> effective_path (Some []) basePath = ''/''
   \<and> (segment \<noteq> [] \<and> CHR ''/'' \<notin> set segment
        \<and> url req = Some (''/'' @ segment)
        \<and> controllers server (''/'' @ segment) = Some controller
        \<and> routes_index (routes controller) (method req) = Some table
        \<and> table ''/'' = Some handler \<longrightarrow>
      handleRootRequest server req res = handler req res)"
proof -
  have self: "effective_path (Some s) s = ''/''" for s
    by (simp add: effective_path_def or_slash_def startsWith_def replace_self)
  have empty: "effective_path (Some []) basePath = ''/''"
    by (simp add: effective_path_def or_slash_def startsWith_def)
  have forwarded: "handleRootRequest server req res = handler req res"
    if "segment \<noteq> []" and "CHR ''/'' \<notin> set segment" and "url req = Some (''/'' @ segment)"
      and "controllers server (''/'' @ segment) = Some controller"
      and "routes_index (routes controller) (method req) = Some table"
      and "table ''/'' = Some handler"
  proof -
    from that(5) have known: "method req \<in> set [Some ''GET'', Some ''POST'', Some ''PUT'', Some ''DELETE'']"
      using routes_index_known [of "method req" "routes controller"] by blast
    have base: "basePath_of (or_slash (url req)) = ''/'' @ segment"
      using that(1,2,3) basePath_of_single [of segment] by (simp add: or_slash_def)
    have "handleRootRequest server req res = handleRequest controller req res (''/'' @ segment)"
      using that(4) base by (simp add: handleRootRequest_known [OF known])
    also have "\<dots> = handler req res"
      using that(3,5,6) self [of "''/'' @ segment"] by (simp add: handleRequest_found)
    finally show ?thesis .
  qed
  from self [of basePath] empty forwarded show ?thesis
    by (simp only: effective_path_None simp_thms) blast
qed

theorem base_path_itself_is_root_witness:
  "''x'' \<noteq> [] \<and> CHR ''/'' \<notin> set ''x''
   \<and> url \<lparr>method = Some ''GET'', url = Some ''/x''\<rparr> = Some (''/'' @ ''x'')
   \<and> controllers (addController ''/x'' (get ''/'' hello_world new_SuppressController) new_Suppress)
        (''/'' @ ''x'')
      = Some (get ''/'' hello_world new_SuppressController)
   \<and> routes_index (routes (get ''/'' hello_world new_SuppressController))
        (method \<lparr>method = Some ''GET'', url = Some ''/x''\<rparr>)
      = Some [''/'' \<mapsto> hello_world]
   \<and> handleRootRequest
        (addController ''/x'' (get ''/'' hello_world new_SuppressController) new_Suppress)
        \<lparr>method = Some ''GET'', url = Some ''/x''\<rparr> new_ServerResponse
      = Inr \<lparr>statusCode = 200, body = ''Hello World!'', writableEnded = True\<rparr>"
proof -
  let ?req = "\<lparr>method = Some ''GET'', url = Some ''/x''\<rparr>"
  let ?controller = "get ''/'' hello_world new_SuppressController :: string SuppressController"
  let ?server = "addController ''/x'' ?controller new_Suppress"
  note forwarded =
    base_path_itself_is_root [THEN conjunct2, THEN conjunct2, THEN conjunct2, rule_format]
  have segment: "''x'' \<noteq> []" "CHR ''/'' \<notin> set ''x''"
    by simp_all
  have target: "url ?req = Some (''/'' @ ''x'')"
    by simp
  have registry: "controllers ?server (''/'' @ ''x'') = Some ?controller"
    by (simp add: addController_def)
  have table: "routes_index (routes ?controller) (method ?req) = Some [''/'' \<mapsto> hello_world]"
    by (simp add: routes_index_def new_SuppressController_def)
  from forwarded [of "''x''" ?req ?server ?controller "[''/'' \<mapsto> hello_world]" hello_world
      new_ServerResponse] segment target registry table
  have "handleRootRequest ?server ?req new_ServerResponse = hello_world ?req new_ServerResponse"
    by simp
  with segment target registry table show ?thesis
    by (simp add: hello_world_def res_end_def new_ServerResponse_def)
qed

text \<open>
  C10. \<open>handleRequest\<close> is defined for every method, and for a method that is not one of the
  four (an absent one included) the lookup \<^verbatim>\<open>this.routes[method]?.[path]\<close> finds no
  handler, whatever the routes, the url and the base path: the result is the 404 response
  and no error. For every request the result of \<open>handleRequest\<close> is either this 404
  response or the result of a handler found in the table of the method, so that nothing is
  thrown by the lookup itself.
\<close>

theorem handleRequest_any_method:
  "(method req \<notin> set [Some ''GET'', Some ''POST'', Some ''PUT'', Some ''DELETE''] \<longrightarrow>
      routes_index (routes this) (method req) = None
      \<and> handleRequest this req res basePath =
          Inr (res\<lparr>statusCode := 404,
                   body := body res @ JSON_stringify_error ''Route not found'',
                   writableEnded := True\<rparr>))
   \<and> (handleRequest this req res basePath = Inr (not_found res)
      \<or> (\<exists>table handler. routes_index (routes this) (method req) = Some table
            \<and> table (effective_path (url req) basePath) = Some handler
            \<and> handleRequest this req res basePath = handler req res))"
proof -
  have unknown: "routes_index (routes this) (method req) = None"
    if "method req \<notin> set [Some ''GET'', Some ''POST'', Some ''PUT'', Some ''DELETE'']"
    using that by (auto simp: routes_index_def)
  have cases: "handleRequest this req res basePath = Inr (not_found res)
      \<or> (\<exists>table handler. routes_index (routes this) (method req) = Some table
            \<and> table (effective_path (url req) basePath) = Some handler
            \<and> handleRequest this req res basePath = handler req res)"
    by (auto simp: handleRequest_def split: option.splits)
  from unknown cases show ?thesis
    by (auto simp: handleRequest_unknown_method not_found_fields simp del: set_simps)
qed

theorem handleRequest_any_method_witness:
  "method \<lparr>method = Some ''constructor'', url = Some ''/profile''\<rparr>
     \<notin> set [Some ''GET'', Some ''POST'', Some ''PUT'', Some ''DELETE'']
   \<and> handleRequest userController \<lparr>method = Some ''constructor'', url = Some ''/profile''\<rparr>
        new_ServerResponse ''/''
      = Inr \<lparr>statusCode = 404, body = JSON_stringify_error ''Route not found'',
             writableEnded = True\<rparr>"
proof -
  let ?req = "\<lparr>method = Some ''constructor'', url = Some ''/profile''\<rparr>"
  have unknown: "method ?req \<notin> set [Some ''GET'', Some ''POST'', Some ''PUT'', Some ''DELETE'']"
    by simp
  from handleRequest_any_method
    [THEN conjunct1, rule_format, OF unknown, of userController new_ServerResponse "''/''"] unknown
  show ?thesis
    by (simp add: new_ServerResponse_def)
qed

end
